theory Spec2Isabelle
  imports Main "HOL-Library.Multiset"
begin

section \<open>Strings and numbers of the JavaScript source\<close>

text \<open>
  A JavaScript string is modelled as a HOL \<open>string\<close>: the list of the bytes of its UTF-8
  encoding. The source only ever tests for the ASCII characters dot, slash, ampersand, less-than
  and greater-than, and for U+00A0; no byte of a multi-byte UTF-8 sequence equals an ASCII
  character, so searching and slicing at these characters agrees with the source.
\<close>

definition digit_char :: "nat \<Rightarrow> char" where
  "digit_char d = ''0123456789'' ! d"

text \<open>
  \<open>String(n)\<close> for a non-negative integer \<open>n\<close> below \<open>10^21\<close> (JavaScript prints larger
  numbers with an exponent): the decimal digits, most significant first. This is what
  \<open>Date.now() + '-' + Math.round(...)\<close> does to its two numbers.
\<close>

fun number_to_string :: "nat \<Rightarrow> string" where
  "number_to_string n =
     (if n < 10 then [digit_char n]
      else number_to_string (n div 10) @ [digit_char (n mod 10)])"

declare number_to_string.simps [simp del]

section \<open>\<open>path.extname\<close> (Node.js, POSIX)\<close>

text \<open>
  \<open>storage.filename\<close> calls Node's \<open>path.extname\<close>. Its POSIX implementation scans the
  path from the last character to the first, with five local variables; the record
  below holds them (\<open>endIdx\<close> is the variable \<open>end\<close>), \<open>-1\<close> meaning "not seen yet".
\<close>

record extname_state =
  startDot :: int
  startPart :: int
  endIdx :: int
  matchedSlash :: bool
  preDotState :: int

definition extname_init :: extname_state where
  "extname_init =
     \<lparr>startDot = -1, startPart = 0, endIdx = -1, matchedSlash = True, preDotState = 0\<rparr>"

text \<open>
  One run of \<open>for (let i = path.length - 1; i >= 0; --i)\<close>: \<open>extname_loop path n st\<close> has the
  indices below \<open>n\<close> still to visit, the next one being \<open>n - 1\<close>. A \<open>/\<close> that follows a
  character of the last path component ends the loop (\<open>break\<close>); a trailing \<open>/\<close> is
  skipped (\<open>continue\<close>).
\<close>

fun extname_loop :: "string \<Rightarrow> nat \<Rightarrow> extname_state \<Rightarrow> extname_state" where
  "extname_loop path 0 st = st"
| "extname_loop path (Suc i) st =
     (let code = path ! i in
      if code = CHR ''/'' then
        (if \<not> matchedSlash st then st\<lparr>startPart := int i + 1\<rparr>
         else extname_loop path i st)
      else
        (let st1 = (if endIdx st = -1
                    then st\<lparr>matchedSlash := False, endIdx := int i + 1\<rparr> else st);
             st2 = (if code = CHR ''.'' then
                      (if startDot st1 = -1 then st1\<lparr>startDot := int i\<rparr>
                       else if preDotState st1 \<noteq> 1 then st1\<lparr>preDotState := 1\<rparr>
                       else st1)
                    else if startDot st1 \<noteq> -1 then st1\<lparr>preDotState := -1\<rparr>
                    else st1)
         in extname_loop path i st2))"

text \<open>\<open>path.slice(a, b)\<close> for \<open>0 \<le> a\<close> and \<open>0 \<le> b\<close>.\<close>

definition slice :: "string \<Rightarrow> int \<Rightarrow> int \<Rightarrow> string" where
  "slice s a b = take (nat b - nat a) (drop (nat a) s)"

definition extname :: "string \<Rightarrow> string" where
  "extname path =
     (let st = extname_loop path (length path) extname_init in
      if startDot st = -1 \<or> endIdx st = -1 \<or> preDotState st = 0 \<or>
         (preDotState st = 1 \<and> startDot st = endIdx st - 1 \<and> startDot st = startPart st + 1)
      then []
      else slice path (startDot st) (endIdx st))"

section \<open>The Filename Generator: \<open>storage.filename\<close>\<close>

text \<open>
  \<open>const uniqueSuffix = Date.now() + '-' + Math.round(Math.random() * 1E9);\<close>
  \<open>const ext = path.extname(file.originalname); cb(null, uniqueSuffix + ext)\<close>.
  The clock and the random draw are inputs: \<open>now\<close> is the value of \<open>Date.now()\<close>
  (milliseconds since the epoch) and \<open>rnd\<close> the integer \<open>Math.round(Math.random() * 1E9)\<close>,
  which lies between \<open>0\<close> and \<open>10^9\<close>.
\<close>

definition uniqueSuffix :: "nat \<Rightarrow> nat \<Rightarrow> string" where
  "uniqueSuffix now rnd = number_to_string now @ ''-'' @ number_to_string rnd"

definition storage_filename :: "nat \<Rightarrow> nat \<Rightarrow> string \<Rightarrow> string" where
  "storage_filename now rnd originalname = uniqueSuffix now rnd @ extname originalname"

section \<open>Errors and the Upload Filter: \<open>fileFilter\<close>\<close>

text \<open>
  The JavaScript errors that reach a response. \<open>Error m\<close> is \<open>new Error(m)\<close>;
  \<open>MulterError code m\<close> is the upload middleware's own error; \<open>ClientResponseError s m\<close>
  is what the PocketBase client throws, with its \<open>status\<close> property.
\<close>

datatype js_error =
    Error string
  | MulterError string string
  | ClientResponseError nat string

fun message :: "js_error \<Rightarrow> string" where
  "message (Error m) = m"
| "message (MulterError code m) = m"
| "message (ClientResponseError s m) = m"

text \<open>The \<open>status\<close> property of an error object, when it has one.\<close>

fun status_property :: "js_error \<Rightarrow> nat option" where
  "status_property (Error m) = None"
| "status_property (MulterError code m) = None"
| "status_property (ClientResponseError s m) = Some s"

text \<open>The file object the middleware hands to the callbacks of the source.\<close>

record upload_file =
  originalname :: string
  mimetype :: string

text \<open>\<open>req.file\<close> once the storage engine has stored the file.\<close>

record stored_file = upload_file +
  filename :: string
  size_bytes :: nat

definition allowedTypes :: "string list" where
  "allowedTypes = [''image/jpeg'', ''image/jpg'', ''image/png'', ''image/gif'']"

text \<open>
  \<open>fileFilter\<close>: \<open>cb(null, true)\<close> is \<open>Inr True\<close>, \<open>cb(new Error(...), false)\<close> is \<open>Inl\<close> of
  the error. \<open>allowedTypes.includes(file.mimetype)\<close> is membership in the list.
\<close>

definition fileFilter :: "upload_file \<Rightarrow> js_error + bool" where
  "fileFilter f =
     (if mimetype f \<in> set allowedTypes then Inr True
      else Inl (Error ''Invalid file type. Only JPG, PNG, and GIF are allowed.''))"

definition MAX_FILE_SIZE :: nat where
  "MAX_FILE_SIZE = 10 * 1024 * 1024"

section \<open>The upload middleware: \<open>upload.single('image')\<close>\<close>

text \<open>
  The upload directory is a map from file names to file contents. The source configures
  multer with \<open>storage\<close> (disk storage, \<open>destination\<close> the upload directory, \<open>filename\<close> the
  generator above), \<open>limits: { fileSize: MAX_FILE_SIZE }\<close> and \<open>fileFilter\<close>. What multer
  does with this configuration is its documented behaviour, written out here for a
  request that carries at most one file, in the field \<open>image\<close>:
  \<^item> no file part: \<open>req.file\<close> stays undefined and the route handler runs;
  \<^item> the file filter is asked first; its error ends the request (\<open>next(err)\<close>) before
    the storage engine is called, and \<open>cb(null, false)\<close> skips the file;
  \<^item> the storage engine streams the body to \<open>destination/filename\<close>; when the body is
    longer than \<open>limits.fileSize\<close> the stream is cut at the limit, so the first
    \<open>limits.fileSize\<close> bytes are written, then the file is removed again and the request
    ends with the error \<open>LIMIT_FILE_SIZE\<close>;
  \<^item> otherwise \<open>req.file\<close> describes the stored file and the route handler runs.
  A failing disk is not modelled.
\<close>

type_synonym disk = "string \<rightharpoonup> string"

text \<open>
  The two file-system operations of the disk storage engine: \<open>WriteFile fn bytes\<close> is
  \<open>fs.createWriteStream\<close> on \<open>destination/fn\<close> with \<open>bytes\<close> piped into it (an existing file
  of that name is replaced), \<open>Unlink fn\<close> is \<open>fs.unlink\<close>.
\<close>

datatype fs_op = WriteFile string string | Unlink string

fun apply_fs_op :: "fs_op \<Rightarrow> disk \<Rightarrow> disk" where
  "apply_fs_op (WriteFile fn bytes) d = d(fn \<mapsto> bytes)"
| "apply_fs_op (Unlink fn) d = d(fn := None)"

text \<open>
  What the middleware decides and which file-system operations it performs, in order.
\<close>

definition upload_steps ::
  "nat \<Rightarrow> nat \<Rightarrow> (upload_file \<times> string) option \<Rightarrow> (js_error + stored_file option) \<times> fs_op list"
where
  "upload_steps now rnd part =
     (case part of
        None \<Rightarrow> (Inr None, [])
      | Some (f, content) \<Rightarrow>
          (case fileFilter f of
             Inl err \<Rightarrow> (Inl err, [])
           | Inr False \<Rightarrow> (Inr None, [])
           | Inr True \<Rightarrow>
               (let fn = storage_filename now rnd (originalname f) in
                if MAX_FILE_SIZE < length content
                then (Inl (MulterError ''LIMIT_FILE_SIZE'' ''File too large''),
                      [WriteFile fn (take MAX_FILE_SIZE content), Unlink fn])
                else (Inr (Some \<lparr>originalname = originalname f, mimetype = mimetype f,
                                 filename = fn, size_bytes = length content\<rparr>),
                      [WriteFile fn content]))))"

text \<open>The middleware on an upload directory: its decision and the directory afterwards.\<close>

definition upload_single ::
  "nat \<Rightarrow> nat \<Rightarrow> (upload_file \<times> string) option \<Rightarrow> disk \<Rightarrow> (js_error + stored_file option) \<times> disk"
where
  "upload_single now rnd part d =
     (case upload_steps now rnd part of
        (result, ops) \<Rightarrow> (result, fold apply_fs_op ops d))"

section \<open>The Metadata Store and the HTTP responses\<close>

text \<open>
  The data the upload route sends to the store (\<open>imageData\<close>) and a record as the store
  returns it, with the fields it assigns. \<open>created\<close> and \<open>updated\<close> are timestamps, taken
  as numbers.
\<close>

record image_data =
  name :: string
  location :: string
  mime_type :: string

record image_record = image_data +
  record_id :: string
  created :: nat
  updated :: nat

datatype json =
    JString string
  | JBool bool
  | JRecord image_record
  | JArray "json list"
  | JObject "(string \<times> json) list"

text \<open>
  A response is its status and its body: a JSON value sent with \<open>res.json\<close>, or the error
  page of Express's default error handler.
\<close>

datatype response_body = Json json | ErrorPage js_error

record response =
  status :: nat
  body :: response_body

text \<open>
  The source registers no error-handling middleware, so an error passed to \<open>next\<close> reaches
  Express's default error handler: the status is the error's \<open>status\<close> property when that
  is a 4xx or 5xx code, and 500 otherwise.
\<close>

definition default_error_handler :: "js_error \<Rightarrow> response" where
  "default_error_handler err =
     \<lparr>status = (case status_property err of
                  Some s \<Rightarrow> if 400 \<le> s \<and> s < 600 then s else 500
                | None \<Rightarrow> 500),
      body = ErrorPage err\<rparr>"

section \<open>\<open>POST /upload\<close>\<close>

definition filePath :: "stored_file \<Rightarrow> string" where
  "filePath req_file = ''/uploads/'' @ filename req_file"

definition imageData :: "stored_file \<Rightarrow> image_data" where
  "imageData req_file =
     \<lparr>name = originalname req_file, location = filePath req_file,
      mime_type = mimetype req_file\<rparr>"

text \<open>
  The route handler. \<open>create\<close> is \<open>pb.collection('images').create\<close>: the store is an
  external service, so its answer (the created record, or the error the call throws) is
  a parameter. The handler does not touch the upload directory.
\<close>

definition upload_handler ::
  "(image_data \<Rightarrow> js_error + image_record) \<Rightarrow> stored_file option \<Rightarrow> response"
where
  "upload_handler create req_file =
     (case req_file of
        None \<Rightarrow> \<lparr>status = 400, body = Json (JObject [(''error'', JString ''No file uploaded'')])\<rparr>
      | Some f \<Rightarrow>
          (case create (imageData f) of
             Inr record \<Rightarrow>
               \<lparr>status = 200,
                body = Json (JObject [(''success'', JBool True),
                                      (''message'', JString ''Image uploaded successfully''),
                                      (''data'', JRecord record)])\<rparr>
           | Inl error \<Rightarrow>
               \<lparr>status = 500,
                body = Json (JObject [(''error'', JString ''Failed to upload image''),
                                      (''message'', JString (message error))])\<rparr>))"

text \<open>
  \<open>app.post('/upload', upload.single('image'), handler)\<close>: the middleware first, then the
  handler, or the default error handler when the middleware ends with an error.
\<close>

definition post_upload ::
  "(image_data \<Rightarrow> js_error + image_record) \<Rightarrow> nat \<Rightarrow> nat \<Rightarrow> (upload_file \<times> string) option \<Rightarrow> disk
     \<Rightarrow> response \<times> disk"
where
  "post_upload create now rnd part d =
     (case upload_single now rnd part d of
        (Inl err, d') \<Rightarrow> (default_error_handler err, d')
      | (Inr req_file, d') \<Rightarrow> (upload_handler create req_file, d'))"

section \<open>\<open>GET /api/images\<close>\<close>

text \<open>
  \<open>getFullList\<close> is \<open>pb.collection('images').getFullList\<close>, applied to the value of the
  \<open>sort\<close> option; the source passes no other option.
\<close>

definition get_api_images :: "(string \<Rightarrow> js_error + image_record list) \<Rightarrow> response" where
  "get_api_images getFullList =
     (case getFullList ''-created'' of
        Inr records \<Rightarrow> \<lparr>status = 200, body = Json (JArray (map JRecord records))\<rparr>
      | Inl error \<Rightarrow>
          \<lparr>status = 500,
           body = Json (JObject [(''error'', JString ''Failed to fetch images''),
                                 (''message'', JString (message error))])\<rparr>)"

text \<open>
  The contract of the store, for a collection that holds \<open>rows\<close>: \<open>getFullList\<close> fetches
  every page and returns all records, ordered by the \<open>sort\<close> option (a leading \<open>-\<close> means
  descending); \<open>create\<close> refuses a record with an empty required field (the migration
  declares \<open>name\<close>, \<open>location\<close> and \<open>mime_type\<close> required) and otherwise returns the record
  with the identifier and the timestamps the store assigns.
\<close>

definition collection_getFullList :: "image_record list \<Rightarrow> string \<Rightarrow> js_error + image_record list" where
  "collection_getFullList rows sort_option =
     (if sort_option = ''-created'' then Inr (rev (sort_key created rows))
      else if sort_option = ''created'' then Inr (sort_key created rows)
      else if sort_option = [] then Inr rows
      else Inl (ClientResponseError 400 ''Something went wrong while processing your request.''))"

definition collection_create :: "string \<Rightarrow> nat \<Rightarrow> image_data \<Rightarrow> js_error + image_record" where
  "collection_create new_id now d =
     (if name d = [] \<or> location d = [] \<or> mime_type d = []
      then Inl (ClientResponseError 400 ''Failed to create record.'')
      else Inr \<lparr>name = name d, location = location d, mime_type = mime_type d,
                record_id = new_id, created = now, updated = now\<rparr>)"

section \<open>The gallery front end\<close>

text \<open>
  \<open>escapeHtml\<close> sets the text as \<open>textContent\<close> of a new \<open>div\<close> and reads \<open>innerHTML\<close> back:
  the browser serialises the text node, replacing \<open>&\<close>, \<open><\<close>, \<open>>\<close> and the no-break space
  U+00A0 (the bytes C2 A0) by their entities. Quotes are left as they are.
\<close>

fun escapeHtml :: "string \<Rightarrow> string" where
  "escapeHtml [] = []"
| "escapeHtml (c # cs) =
     (if c = CHR ''&'' then ''&amp;'' @ escapeHtml cs
      else if c = CHR ''<'' then ''&lt;'' @ escapeHtml cs
      else if c = CHR ''>'' then ''&gt;'' @ escapeHtml cs
      else if c = CHR 0xC2 then
        (case cs of
           [] \<Rightarrow> [c]
         | d # ds \<Rightarrow> if d = CHR 0xA0 then ''&nbsp;'' @ escapeHtml ds else c # escapeHtml cs)
      else c # escapeHtml cs)"

text \<open>The bullet U+2022 of the card template, in UTF-8.\<close>

definition bullet :: string where
  "bullet = [CHR 0xE2, CHR 0x80, CHR 0xA2]"

definition imageUrl :: "image_record \<Rightarrow> string" where
  "imageUrl img = (if take 1 (location img) = ''/'' then location img
                   else ''/'' @ location img)"

text \<open>
  The template literal of \<open>displayImages\<close>, one card per image. \<open>formatDate\<close> depends on
  the browser's locale data and is a parameter.
\<close>

definition image_card :: "(nat \<Rightarrow> string) \<Rightarrow> image_record \<Rightarrow> string" where
  \<open>image_card formatDate img =
     ''\<newline>      <div class="image-card">\<newline>        <img src="'' @ imageUrl img @
     ''" alt="'' @ name img @
     ''" loading="lazy">\<newline>        <div class="image-info">\<newline>          <p class="image-name">'' @
     escapeHtml (name img) @
     ''</p>\<newline>          <p class="image-meta">'' @ mime_type img @ '' '' @ bullet @ '' '' @
     formatDate (created img) @
     ''</p>\<newline>        </div>\<newline>      </div>\<newline>    ''\<close>

text \<open>
  The page is the \<open>innerHTML\<close> of the element with id \<open>gallery\<close>, \<open>None\<close> when the page has
  no such element.
\<close>

definition displayImages :: "(nat \<Rightarrow> string) \<Rightarrow> image_record list \<Rightarrow> string option \<Rightarrow> string option" where
  \<open>displayImages formatDate images gallery =
     (case gallery of
        None \<Rightarrow> None
      | Some old \<Rightarrow>
          if length images = 0 then Some ''<p>No images uploaded yet.</p>''
          else Some (concat (map (image_card formatDate) images)))\<close>

text \<open>
  What \<open>fetch('/api/images')\<close> and \<open>response.json()\<close> give: the request fails, or a
  response arrives with its \<open>ok\<close> flag and a body that parses to the array of records or
  does not parse.
\<close>

datatype json_outcome = ParseFailure | Parsed "image_record list"

datatype fetch_outcome = NetworkFailure | HttpResponse bool json_outcome

definition error_markup :: string where
  \<open>error_markup = ''<p class="error">Failed to load images. Please try again later.</p>''\<close>

text \<open>The \<open>catch\<close> block of \<open>loadImages\<close>.\<close>

definition show_error :: "string option \<Rightarrow> string option" where
  "show_error gallery = (case gallery of None \<Rightarrow> None | Some old \<Rightarrow> Some error_markup)"

definition loadImages :: "(nat \<Rightarrow> string) \<Rightarrow> fetch_outcome \<Rightarrow> string option \<Rightarrow> string option" where
  "loadImages formatDate outcome gallery =
     (case outcome of
        NetworkFailure \<Rightarrow> show_error gallery
      | HttpResponse ok parsed \<Rightarrow>
          if \<not> ok then show_error gallery
          else (case parsed of
                  ParseFailure \<Rightarrow> show_error gallery
                | Parsed images \<Rightarrow> displayImages formatDate images gallery))"

text \<open>The API call failed: no response, a status outside 2xx, or a body that does not parse.\<close>

fun api_call_failed :: "fetch_outcome \<Rightarrow> bool" where
  "api_call_failed NetworkFailure = True"
| "api_call_failed (HttpResponse ok ParseFailure) = True"
| "api_call_failed (HttpResponse ok (Parsed images)) = (\<not> ok)"

section \<open>The invariant of the \<open>extname\<close> loop\<close>

text \<open>
  After the indices \<open>n\<close> and above have been visited: \<open>end\<close> is set as soon as a character
  other than a slash was seen, and from then on no slash lies between the current index
  and \<open>end\<close>; \<open>startDot\<close>, once set, is the index of the last dot before \<open>end\<close>.
\<close>

definition ext_inv :: "string \<Rightarrow> nat \<Rightarrow> extname_state \<Rightarrow> bool" where
  "ext_inv path n st \<longleftrightarrow>
     (endIdx st = -1 \<longrightarrow> startDot st = -1) \<and>
     (endIdx st \<noteq> -1 \<longrightarrow>
        \<not> matchedSlash st \<and> int n \<le> endIdx st \<and> endIdx st \<le> int (length path) \<and>
        (\<forall>k. n \<le> k \<and> int k < endIdx st \<longrightarrow> path ! k \<noteq> CHR ''/'')) \<and>
     (startDot st \<noteq> -1 \<longrightarrow>
        int n \<le> startDot st \<and> startDot st < endIdx st \<and>
        path ! nat (startDot st) = CHR ''.'' \<and>
        (\<forall>k. startDot st < int k \<and> int k < endIdx st \<longrightarrow> path ! k \<noteq> CHR ''.'')) \<and>
     (startDot st = -1 \<and> endIdx st \<noteq> -1 \<longrightarrow>
        (\<forall>k. n \<le> k \<and> int k < endIdx st \<longrightarrow> path ! k \<noteq> CHR ''.''))"

section \<open>Properties of \<open>path.extname\<close>\<close>

lemma ext_inv_init: "ext_inv path n extname_init"
  by (simp add: ext_inv_def extname_init_def)

lemma ext_inv_startPart: "ext_inv path n (st\<lparr>startPart := v\<rparr>) = ext_inv path n st"
  by (simp add: ext_inv_def)

lemma ext_inv_preDotState: "ext_inv path n (st\<lparr>preDotState := v\<rparr>) = ext_inv path n st"
  by (simp add: ext_inv_def)

lemma ext_inv_skip_slash:
  assumes "ext_inv path (Suc i) st" "matchedSlash st"
  shows "ext_inv path i st"
proof -
  have "endIdx st = -1" using assms by (auto simp: ext_inv_def)
  moreover have "startDot st = -1" using assms calculation by (simp add: ext_inv_def)
  ultimately show ?thesis by (simp add: ext_inv_def)
qed

lemma ext_inv_set_end:
  assumes "ext_inv path (Suc i) st" "i < length path" "endIdx st = -1"
  shows "ext_inv path (Suc i) (st\<lparr>matchedSlash := False, endIdx := int i + 1\<rparr>)"
proof -
  have sd: "startDot st = -1" using assms(1,3) by (simp add: ext_inv_def)
  have "\<And>k. Suc i \<le> k \<Longrightarrow> int k < int i + 1 \<Longrightarrow> False" by linarith
  then have "\<forall>k. Suc i \<le> k \<and> int k < int i + 1 \<longrightarrow> path ! k \<noteq> CHR ''/''"
    "\<forall>k. Suc i \<le> k \<and> int k < int i + 1 \<longrightarrow> path ! k \<noteq> CHR ''.''"
    by blast+
  then show ?thesis using sd assms(2) by (simp add: ext_inv_def)
qed

lemma range_split: "i \<le> k \<Longrightarrow> k = i \<or> Suc i \<le> k"
  by auto

lemma ext_inv_down:
  assumes "ext_inv path (Suc i) st" "path ! i \<noteq> CHR ''/''" "endIdx st \<noteq> -1"
    "startDot st = -1 \<longrightarrow> path ! i \<noteq> CHR ''.''"
  shows "ext_inv path i st"
proof -
  from assms(1,3) have a: "\<not> matchedSlash st" "int (Suc i) \<le> endIdx st"
    "endIdx st \<le> int (length path)"
    "\<forall>k. Suc i \<le> k \<and> int k < endIdx st \<longrightarrow> path ! k \<noteq> CHR ''/''"
    by (simp_all add: ext_inv_def)
  from assms(1) have b: "startDot st \<noteq> -1 \<longrightarrow>
        int (Suc i) \<le> startDot st \<and> startDot st < endIdx st \<and>
        path ! nat (startDot st) = CHR ''.'' \<and>
        (\<forall>k. startDot st < int k \<and> int k < endIdx st \<longrightarrow> path ! k \<noteq> CHR ''.'')"
    by (simp add: ext_inv_def)
  from assms(1,3) have b': "startDot st = -1 \<longrightarrow>
        (\<forall>k. Suc i \<le> k \<and> int k < endIdx st \<longrightarrow> path ! k \<noteq> CHR ''.'')"
    by (simp add: ext_inv_def)
  have c: "\<forall>k. i \<le> k \<and> int k < endIdx st \<longrightarrow> path ! k \<noteq> CHR ''/''"
    using a(4) assms(2) range_split by blast
  have c': "startDot st = -1 \<longrightarrow>
     (\<forall>k. i \<le> k \<and> int k < endIdx st \<longrightarrow> path ! k \<noteq> CHR ''.'')"
    using b' assms(4) range_split by blast
  have d: "int i \<le> endIdx st" using a(2) by simp
  have e: "startDot st \<noteq> -1 \<longrightarrow> int i \<le> startDot st" using b by auto
  show ?thesis unfolding ext_inv_def using a(1,3) b c c' d e assms(3) by blast
qed

lemma ext_inv_set_dot:
  assumes "ext_inv path (Suc i) st" "path ! i = CHR ''.''" "startDot st = -1"
    "endIdx st \<noteq> -1"
  shows "ext_inv path i (st\<lparr>startDot := int i\<rparr>)"
proof -
  from assms(1,4) have a: "\<not> matchedSlash st" "int (Suc i) \<le> endIdx st"
    "endIdx st \<le> int (length path)"
    "\<forall>k. Suc i \<le> k \<and> int k < endIdx st \<longrightarrow> path ! k \<noteq> CHR ''/''"
    by (simp_all add: ext_inv_def)
  from assms(1,3,4) have b: "\<forall>k. Suc i \<le> k \<and> int k < endIdx st \<longrightarrow> path ! k \<noteq> CHR ''.''"
    by (simp add: ext_inv_def)
  have ns: "path ! i \<noteq> CHR ''/''" using assms(2) by simp
  have c: "\<forall>k. i \<le> k \<and> int k < endIdx st \<longrightarrow> path ! k \<noteq> CHR ''/''"
    using a(4) ns range_split by blast
  have "\<And>k. int i < int k \<Longrightarrow> Suc i \<le> k" by simp
  then have d: "\<forall>k. int i < int k \<and> int k < endIdx st \<longrightarrow> path ! k \<noteq> CHR ''.''"
    using b by blast
  have e: "int i < endIdx st" "int i \<le> endIdx st" using a(2) by simp_all
  show ?thesis using a(1,3) c d e assms(2,4) by (simp add: ext_inv_def)
qed

lemma ext_inv_loop:
  "n \<le> length path \<Longrightarrow> ext_inv path n st \<Longrightarrow> \<exists>m. ext_inv path m (extname_loop path n st)"
proof (induction n arbitrary: st)
  case 0
  then show ?case by auto
next
  case (Suc i)
  then have len: "i < length path" "i \<le> length path" by simp_all
  show ?case
  proof (cases "path ! i = CHR ''/''")
    case True
    show ?thesis
    proof (cases "matchedSlash st")
      case True
      with Suc.prems have "ext_inv path i st" by (simp add: ext_inv_skip_slash)
      from Suc.IH [OF len(2) this] show ?thesis
        using \<open>path ! i = CHR ''/''\<close> True by simp
    next
      case False
      have "ext_inv path (Suc i) (st\<lparr>startPart := int i + 1\<rparr>)"
        using Suc.prems by (simp add: ext_inv_startPart)
      then show ?thesis using \<open>path ! i = CHR ''/''\<close> False by auto
    qed
  next
    case False
    define st1 where "st1 = (if endIdx st = -1
                    then st\<lparr>matchedSlash := False, endIdx := int i + 1\<rparr> else st)"
    have i1: "ext_inv path (Suc i) st1"
      using Suc.prems len ext_inv_set_end [of path i st] by (simp add: st1_def)
    have e1: "endIdx st1 \<noteq> -1" by (simp add: st1_def)
    define st2 where "st2 = (if path ! i = CHR ''.'' then
                      (if startDot st1 = -1 then st1\<lparr>startDot := int i\<rparr>
                       else if preDotState st1 \<noteq> 1 then st1\<lparr>preDotState := 1\<rparr>
                       else st1)
                    else if startDot st1 \<noteq> -1 then st1\<lparr>preDotState := -1\<rparr>
                    else st1)"
    have i2: "ext_inv path i st2"
    proof (cases "path ! i = CHR ''.'' \<and> startDot st1 = -1")
      case True
      then show ?thesis using ext_inv_set_dot [OF i1 _ _ e1] by (simp add: st2_def)
    next
      case False
      then have "startDot st1 = -1 \<longrightarrow> path ! i \<noteq> CHR ''.''" by blast
      from ext_inv_down [OF i1 \<open>path ! i \<noteq> CHR ''/''\<close> e1 this] False
      show ?thesis by (auto simp: st2_def ext_inv_preDotState)
    qed
    have "extname_loop path (Suc i) st = extname_loop path i st2"
      using False by (simp add: st1_def st2_def Let_def)
    then show ?thesis using Suc.IH [OF len(2) i2] by simp
  qed
qed

lemma extname_shape:
  "extname path = [] \<or>
   (\<exists>e. extname path = CHR ''.'' # e \<and> CHR ''.'' \<notin> set e \<and> CHR ''/'' \<notin> set e)"
proof (cases "extname path = []")
  case True
  then show ?thesis by simp
next
  case False
  define st where "st = extname_loop path (length path) extname_init"
  from False have ne: "startDot st \<noteq> -1" "endIdx st \<noteq> -1"
    and ex: "extname path = slice path (startDot st) (endIdx st)"
    by (auto simp: extname_def Let_def st_def split: if_splits)
  obtain m where inv: "ext_inv path m st"
    using ext_inv_loop [of "length path" path extname_init] ext_inv_init
    unfolding st_def by blast
  define s where "s = nat (startDot st)"
  define e where "e = nat (endIdx st)"
  from inv ne have f: "int m \<le> startDot st" "startDot st < endIdx st"
    "endIdx st \<le> int (length path)" "path ! nat (startDot st) = CHR ''.''"
    and nodot: "\<forall>k. startDot st < int k \<and> int k < endIdx st \<longrightarrow> path ! k \<noteq> CHR ''.''"
    and noslash: "\<forall>k. m \<le> k \<and> int k < endIdx st \<longrightarrow> path ! k \<noteq> CHR ''/''"
    by (simp_all add: ext_inv_def)
  have se: "m \<le> s" "s < e" "e \<le> length path" "startDot st = int s" "endIdx st = int e"
    using f by (simp_all add: s_def e_def)
  have ex': "extname path = take (e - s) (drop s path)"
    using ex by (simp add: slice_def s_def e_def)
  have len: "length (extname path) = e - s" using se by (simp add: ex')
  have nth: "\<And>j. j < e - s \<Longrightarrow> extname path ! j = path ! (s + j)"
    using se by (simp add: ex')
  obtain c r where cr: "extname path = c # r" using False by (cases "extname path") auto
  have "c = path ! s" using nth [of 0] se cr by simp
  then have c: "c = CHR ''.''" using f(4) by (simp add: s_def)
  have r: "\<And>j. j < length r \<Longrightarrow> r ! j = path ! (s + Suc j)"
  proof -
    fix j assume "j < length r"
    then have "Suc j < e - s" using len cr by simp
    from nth [OF this] show "r ! j = path ! (s + Suc j)" using cr by simp
  qed
  have "CHR ''.'' \<notin> set r"
  proof
    assume "CHR ''.'' \<in> set r"
    then obtain j where j: "j < length r" "r ! j = CHR ''.''" by (auto simp: in_set_conv_nth)
    then have "Suc j < e - s" using len cr by simp
    then have "startDot st < int (s + Suc j) \<and> int (s + Suc j) < endIdx st" using se by simp
    with nodot have "path ! (s + Suc j) \<noteq> CHR ''.''" by blast
    with r [OF j(1)] j(2) show False by simp
  qed
  moreover have "CHR ''/'' \<notin> set r"
  proof
    assume "CHR ''/'' \<in> set r"
    then obtain j where j: "j < length r" "r ! j = CHR ''/''" by (auto simp: in_set_conv_nth)
    then have "Suc j < e - s" using len cr by simp
    then have "m \<le> s + Suc j \<and> int (s + Suc j) < endIdx st" using se by simp
    with noslash have "path ! (s + Suc j) \<noteq> CHR ''/''" by blast
    with r [OF j(1)] j(2) show False by simp
  qed
  ultimately show ?thesis using cr c by simp
qed

lemma extname_loop_plain_before_dot:
  "startDot st = -1 \<Longrightarrow> endIdx st \<noteq> -1 \<Longrightarrow> m \<le> n \<Longrightarrow>
   \<forall>k. m \<le> k \<and> k < n \<longrightarrow> path ! k \<noteq> CHR ''.'' \<and> path ! k \<noteq> CHR ''/'' \<Longrightarrow>
   extname_loop path n st = extname_loop path m st"
proof (induction n arbitrary: st)
  case 0
  then show ?case by simp
next
  case (Suc i)
  show ?case
  proof (cases "m = Suc i")
    case True
    then show ?thesis by simp
  next
    case False
    with Suc.prems have mi: "m \<le> i" by simp
    with Suc.prems have p: "path ! i \<noteq> CHR ''.''" "path ! i \<noteq> CHR ''/''" by auto
    have "extname_loop path (Suc i) st = extname_loop path i st"
      using p Suc.prems(1,2) by (simp add: Let_def)
    also have "\<dots> = extname_loop path m st"
      using Suc.IH [OF Suc.prems(1,2) mi] Suc.prems(4) by simp
    finally show ?thesis .
  qed
qed

lemma extname_loop_plain_after_dot:
  "startDot st \<noteq> -1 \<Longrightarrow> endIdx st \<noteq> -1 \<Longrightarrow> preDotState st = -1 \<Longrightarrow>
   \<forall>k < n. path ! k \<noteq> CHR ''.'' \<and> path ! k \<noteq> CHR ''/'' \<Longrightarrow>
   extname_loop path n st = st"
proof (induction n arbitrary: st)
  case 0
  then show ?case by simp
next
  case (Suc i)
  then have p: "path ! i \<noteq> CHR ''.''" "path ! i \<noteq> CHR ''/''" by auto
  have "st\<lparr>preDotState := -1\<rparr> = st" using Suc.prems(3) by simp
  then have "extname_loop path (Suc i) st = extname_loop path i st"
    using p Suc.prems(1,2) by (simp add: Let_def)
  then show ?case using Suc by simp
qed


lemma extname_loop_suffix:
  assumes pre: "pre \<noteq> []" "CHR ''.'' \<notin> set pre" "CHR ''/'' \<notin> set pre"
    and e: "CHR ''.'' \<notin> set e" "CHR ''/'' \<notin> set e"
  shows "extname_loop (pre @ CHR ''.'' # e) (length (pre @ CHR ''.'' # e)) extname_init =
     \<lparr>startDot = int (length pre), startPart = 0,
      endIdx = int (length (pre @ CHR ''.'' # e)), matchedSlash = False, preDotState = -1\<rparr>"
proof -
  define path where "path = pre @ CHR ''.'' # e"
  define m where "m = length pre"
  define L where "L = length path"
  have L: "L = Suc (m + length e)" by (simp add: L_def path_def m_def)
  have at_m: "path ! m = CHR ''.''" by (simp add: path_def m_def)
  have below: "\<forall>k < m. path ! k \<noteq> CHR ''.'' \<and> path ! k \<noteq> CHR ''/''"
  proof (intro allI impI)
    fix k assume k: "k < m"
    then have "path ! k = pre ! k" by (simp add: path_def m_def nth_append)
    moreover have "pre ! k \<in> set pre" using k by (simp add: m_def)
    ultimately show "path ! k \<noteq> CHR ''.'' \<and> path ! k \<noteq> CHR ''/''"
      using pre(2,3) by auto
  qed
  have above: "\<forall>k. Suc m \<le> k \<and> k < L \<longrightarrow> path ! k \<noteq> CHR ''.'' \<and> path ! k \<noteq> CHR ''/''"
  proof (intro allI impI)
    fix k assume k: "Suc m \<le> k \<and> k < L"
    then have "path ! k = e ! (k - Suc m)" "k - Suc m < length e"
      using L by (auto simp: path_def m_def nth_append nth_Cons')
    then have "path ! k \<in> set e" by simp
    then show "path ! k \<noteq> CHR ''.'' \<and> path ! k \<noteq> CHR ''/''" using e by auto
  qed
  define S0 where "S0 = extname_init\<lparr>matchedSlash := False, endIdx := int L\<rparr>"
  define S where "S = S0\<lparr>startDot := int m\<rparr>"
  have to_dot: "extname_loop path L extname_init = extname_loop path m S"
  proof (cases "e = []")
    case True
    then have "L = Suc m" using L by simp
    then show ?thesis using at_m
      by (simp add: Let_def S_def S0_def extname_init_def add.commute)
  next
    case False
    then obtain l where l: "L = Suc l" "Suc m \<le> l" using L by (cases e) auto
    with above have pl: "path ! l \<noteq> CHR ''.''" "path ! l \<noteq> CHR ''/''" by auto
    have "extname_loop path L extname_init = extname_loop path l S0"
      using l pl by (simp add: Let_def S0_def extname_init_def add.commute)
    also have "\<dots> = extname_loop path (Suc m) S0"
    proof (rule extname_loop_plain_before_dot)
      show "startDot S0 = -1" by (simp add: S0_def extname_init_def)
      show "endIdx S0 \<noteq> -1" by (simp add: S0_def)
      show "Suc m \<le> l" by (rule l(2))
      show "\<forall>k. Suc m \<le> k \<and> k < l \<longrightarrow> path ! k \<noteq> CHR ''.'' \<and> path ! k \<noteq> CHR ''/''"
        using above l(1) by auto
    qed
    also have "\<dots> = extname_loop path m S"
      using at_m by (simp add: Let_def S_def S0_def extname_init_def add.commute)
    finally show ?thesis .
  qed
  obtain m' where m': "m = Suc m'" using pre(1) by (cases pre) (auto simp: m_def)
  with below have pm: "path ! m' \<noteq> CHR ''.''" "path ! m' \<noteq> CHR ''/''" by auto
  define S' where "S' = S\<lparr>preDotState := -1\<rparr>"
  have "extname_loop path m S = extname_loop path m' S'"
    using m' pm by (simp add: Let_def S'_def S_def S0_def)
  also have "\<dots> = S'"
  proof (rule extname_loop_plain_after_dot)
    show "startDot S' \<noteq> -1" by (simp add: S'_def S_def)
    show "endIdx S' \<noteq> -1" by (simp add: S'_def S_def S0_def)
    show "preDotState S' = -1" by (simp add: S'_def)
    show "\<forall>k<m'. path ! k \<noteq> CHR ''.'' \<and> path ! k \<noteq> CHR ''/''" using below m' by auto
  qed
  finally have "extname_loop path m S = S'" .
  with to_dot have "extname_loop path L extname_init = S'" by simp
  then show ?thesis
    by (simp add: S'_def S_def S0_def extname_init_def L_def path_def m_def)
qed

lemma extname_suffix:
  assumes "pre \<noteq> []" "CHR ''.'' \<notin> set pre" "CHR ''/'' \<notin> set pre"
    and "CHR ''.'' \<notin> set e" "CHR ''/'' \<notin> set e"
  shows "extname (pre @ CHR ''.'' # e) = CHR ''.'' # e"
  unfolding extname_def extname_loop_suffix [OF assms]
  by (simp add: slice_def Let_def)

lemma extname_loop_no_dot:
  "\<forall>k<n. path ! k \<noteq> CHR ''.'' \<Longrightarrow> startDot st = -1 \<Longrightarrow>
   startDot (extname_loop path n st) = -1"
proof (induction n arbitrary: st)
  case 0
  then show ?case by simp
next
  case (Suc i)
  then show ?case by (simp add: Let_def)
qed

lemma extname_no_dot: "CHR ''.'' \<notin> set path \<Longrightarrow> extname path = []"
proof -
  assume a: "CHR ''.'' \<notin> set path"
  have "\<forall>k<length path. path ! k \<noteq> CHR ''.''"
    using a by (metis nth_mem)
  then have "startDot (extname_loop path (length path) extname_init) = -1"
    by (rule extname_loop_no_dot) (simp add: extname_init_def)
  then show ?thesis by (simp add: extname_def Let_def)
qed

lemma extname_subset: "set (extname path) \<subseteq> set path"
proof (cases "extname path = []")
  case True then show ?thesis by simp
next
  case False
  then have "extname path = slice path (startDot (extname_loop path (length path) extname_init))
      (endIdx (extname_loop path (length path) extname_init))"
    by (auto simp: extname_def Let_def split: if_splits)
  then obtain a b where "extname path = take a (drop b path)"
    unfolding slice_def by blast
  moreover have "set (take a (drop b path)) \<subseteq> set (drop b path)" by (rule set_take_subset)
  moreover have "set (drop b path) \<subseteq> set path" by (rule set_drop_subset)
  ultimately show ?thesis by simp
qed

lemma extname_no_slash: "CHR ''/'' \<notin> set (extname path)"
  using extname_shape [of path] by auto

text \<open>
  The value of \<open>extname\<close> for every path. A path is slashes only, or it is a directory
  part \<open>dir\<close> (empty or ending in a slash), a last component without slashes, and
  trailing slashes \<open>t\<close>. The extension is taken from the last component: from its last
  dot to its end, unless the component has no dot, starts with its only dot, or is \<open>..\<close>.
\<close>

lemma extname_loop_trailing_slashes:
  "matchedSlash st \<Longrightarrow> m \<le> n \<Longrightarrow> \<forall>k. m \<le> k \<and> k < n \<longrightarrow> path ! k = CHR ''/'' \<Longrightarrow>
   extname_loop path n st = extname_loop path m st"
proof (induction n arbitrary: st)
  case 0
  then show ?case by simp
next
  case (Suc i)
  show ?case
  proof (cases "m = Suc i")
    case True
    then show ?thesis by simp
  next
    case False
    with Suc.prems have mi: "m \<le> i" by simp
    with Suc.prems have p: "path ! i = CHR ''/''" by auto
    have "extname_loop path (Suc i) st = extname_loop path i st"
      using p Suc.prems(1) by simp
    also have "\<dots> = extname_loop path m st"
      using Suc.IH [OF Suc.prems(1) mi] Suc.prems(3) by simp
    finally show ?thesis .
  qed
qed

lemma extname_loop_after_dot:
  "startDot st \<noteq> -1 \<Longrightarrow> endIdx st \<noteq> -1 \<Longrightarrow> b \<le> n \<Longrightarrow>
   \<forall>k. b \<le> k \<and> k < n \<longrightarrow> path ! k \<noteq> CHR ''/'' \<Longrightarrow>
   extname_loop path n st =
     extname_loop path b
       (st\<lparr>preDotState := (if n = b then preDotState st
                              else if path ! b = CHR ''.'' then 1 else -1)\<rparr>)"
proof (induction n arbitrary: st)
  case 0
  then show ?case by simp
next
  case (Suc i)
  show ?case
  proof (cases "b = Suc i")
    case True
    then show ?thesis by simp
  next
    case False
    with Suc.prems have bi: "b \<le> i" by simp
    with Suc.prems have ns: "path ! i \<noteq> CHR ''/''" by auto
    define st2 where "st2 = st\<lparr>preDotState := (if path ! i = CHR ''.'' then 1 else -1)\<rparr>"
    have step: "extname_loop path (Suc i) st = extname_loop path i st2"
    proof (cases "path ! i = CHR ''.'' \<and> preDotState st = 1")
      case True
      then have "st2 = st" by (simp add: st2_def)
      then show ?thesis using True ns Suc.prems(1,2) by (simp add: Let_def)
    next
      case False
      then show ?thesis using ns Suc.prems(1,2) by (auto simp: Let_def st2_def)
    qed
    have s2: "startDot st2 \<noteq> -1" "endIdx st2 \<noteq> -1"
      using Suc.prems(1,2) by (simp_all add: st2_def)
    have rest: "\<forall>k. b \<le> k \<and> k < i \<longrightarrow> path ! k \<noteq> CHR ''/''" using Suc.prems(4) by simp
    have "extname_loop path i st2 =
      extname_loop path b
       (st2\<lparr>preDotState := (if i = b then preDotState st2
                              else if path ! b = CHR ''.'' then 1 else -1)\<rparr>)"
      by (rule Suc.IH [OF s2 bi rest])
    also have "st2\<lparr>preDotState := (if i = b then preDotState st2
                              else if path ! b = CHR ''.'' then 1 else -1)\<rparr> =
       st\<lparr>preDotState := (if path ! b = CHR ''.'' then 1 else -1)\<rparr>"
      by (simp add: st2_def)
    finally show ?thesis using step False by simp
  qed
qed

lemma extname_loop_finish:
  "b = 0 \<or> path ! (b - 1) = CHR ''/'' \<Longrightarrow> \<not> matchedSlash st \<Longrightarrow> startPart st = 0 \<Longrightarrow>
   extname_loop path b st = st\<lparr>startPart := int b\<rparr>"
proof (cases b)
  case 0
  assume "startPart st = 0"
  with 0 show ?thesis by simp
next
  case (Suc j)
  assume "b = 0 \<or> path ! (b - 1) = CHR ''/''" "\<not> matchedSlash st"
  with Suc show ?thesis by (simp add: add.commute)
qed

lemma extname_loop_to_dot:
  assumes "s < e" "path ! s = CHR ''.''"
    "\<forall>k. s < k \<and> k < e \<longrightarrow> path ! k \<noteq> CHR ''.'' \<and> path ! k \<noteq> CHR ''/''"
  shows "extname_loop path e extname_init =
     extname_loop path s \<lparr>startDot = int s, startPart = 0, endIdx = int e,
                          matchedSlash = False, preDotState = 0\<rparr>"
proof -
  define S0 where "S0 = extname_init\<lparr>matchedSlash := False, endIdx := int e\<rparr>"
  obtain l where l: "e = Suc l" "s \<le> l" using assms(1) by (cases e) auto
  have dot_step: "extname_loop path (Suc s) S0 =
     extname_loop path s \<lparr>startDot = int s, startPart = 0, endIdx = int e,
                          matchedSlash = False, preDotState = 0\<rparr>"
    using assms(2) by (simp add: Let_def S0_def extname_init_def)
  show ?thesis
  proof (cases "l = s")
    case True
    then show ?thesis using assms(2) l
      by (simp add: Let_def extname_init_def add.commute)
  next
    case False
    with l have sl: "Suc s \<le> l" by simp
    then have pl: "path ! l \<noteq> CHR ''.''" "path ! l \<noteq> CHR ''/''" using assms(3) l by auto
    have "extname_loop path e extname_init = extname_loop path l S0"
      using l pl by (simp add: Let_def S0_def extname_init_def add.commute)
    also have "\<dots> = extname_loop path (Suc s) S0"
    proof (rule extname_loop_plain_before_dot)
      show "startDot S0 = -1" by (simp add: S0_def extname_init_def)
      show "endIdx S0 \<noteq> -1" by (simp add: S0_def)
      show "Suc s \<le> l" by (rule sl)
      show "\<forall>k. Suc s \<le> k \<and> k < l \<longrightarrow> path ! k \<noteq> CHR ''.'' \<and> path ! k \<noteq> CHR ''/''"
        using assms(3) l(1) by auto
    qed
    finally show ?thesis using dot_step by simp
  qed
qed

lemma nth_in_parts:
  fixes dir base ext t :: string
  assumes path_def: "path = dir @ base @ CHR ''.'' # ext @ t"
    and b_def: "b = length dir"
    and s_def: "s = length dir + length base"
    and e_def: "e = length dir + length base + 1 + length ext"
  shows "path ! s = CHR ''.''"
    and "\<And>k. b \<le> k \<Longrightarrow> k < s \<Longrightarrow> path ! k \<in> set base"
    and "\<And>k. s < k \<Longrightarrow> k < e \<Longrightarrow> path ! k \<in> set ext"
    and "\<And>k. e \<le> k \<Longrightarrow> k < length path \<Longrightarrow> path ! k \<in> set t"
    and "dir \<noteq> [] \<Longrightarrow> path ! (b - 1) = last dir"
proof -
  have p1: "path = (dir @ base) @ (CHR ''.'' # ext) @ t" by (simp add: path_def)
  have ls: "length (dir @ base) = s" by (simp add: s_def)
  show "path ! s = CHR ''.''"
    by (simp add: path_def s_def nth_append)
  show "path ! k \<in> set base" if "b \<le> k" "k < s" for k
  proof -
    have kb: "k - b < length base" "\<not> k < length dir" "k < length dir + length base"
      using that by (simp_all add: b_def s_def)
    have "path ! k = (dir @ base) ! k" using that(2) unfolding p1 ls [symmetric]
      by (simp only: nth_append_left)
    also have "\<dots> = base ! (k - b)" using kb by (simp add: nth_append b_def)
    finally show ?thesis using kb(1) by simp
  qed
  show "path ! k \<in> set ext" if "s < k" "k < e" for k
  proof -
    define j where "j = k - Suc s"
    have j: "k = s + Suc j" "j < length ext"
      using that unfolding j_def s_def e_def by linarith+
    have "path ! k = ((CHR ''.'' # ext) @ t) ! Suc j"
      unfolding p1 j(1) ls [symmetric] by (simp only: nth_append_length_plus)
    also have "\<dots> = ext ! j" using j(2) by (simp add: nth_append)
    finally show ?thesis using j(2) by simp
  qed
  show "path ! k \<in> set t" if "e \<le> k" "k < length path" for k
  proof -
    define j where "j = k - e"
    have j: "k = e + j" using that(1) unfolding j_def by linarith
    have jt: "j < length t" using that unfolding j_def path_def e_def by simp
    have p2: "path = (dir @ base @ CHR ''.'' # ext) @ t" by (simp add: path_def)
    have le: "length (dir @ base @ CHR ''.'' # ext) = e" by (simp add: e_def)
    have "path ! k = t ! j"
      unfolding p2 j le [symmetric] by (simp only: nth_append_length_plus)
    then show ?thesis using jt by simp
  qed
  show "path ! (b - 1) = last dir" if "dir \<noteq> []"
    using that by (simp add: path_def b_def nth_append last_conv_nth)
qed

lemma extname_with_dot:
  assumes base: "CHR ''/'' \<notin> set base"
    and ext: "CHR ''/'' \<notin> set ext" "CHR ''.'' \<notin> set ext"
    and t: "set t \<subseteq> {CHR ''/''}"
    and dir: "dir = [] \<or> last dir = CHR ''/''"
  shows "extname (dir @ base @ CHR ''.'' # ext @ t) =
     (if base = [] \<or> (base = ''.'' \<and> ext = []) then [] else CHR ''.'' # ext)"
proof -
  define path where "path = dir @ base @ CHR ''.'' # ext @ t"
  define b where "b = length dir"
  define s where "s = length dir + length base"
  define e where "e = length dir + length base + 1 + length ext"
  note parts = nth_in_parts [OF path_def b_def s_def e_def]
  have len: "length path = e + length t" by (simp add: path_def e_def)
  have se: "s < e" "b \<le> s" "e \<le> length path" by (simp_all add: s_def e_def b_def len)
  define p :: int where "p = (if s = b then 0 else if path ! b = CHR ''.'' then 1 else -1)"
  define S1 where "S1 = \<lparr>startDot = int s, startPart = 0, endIdx = int e,
                          matchedSlash = False, preDotState = 0\<rparr>"
  have "extname_loop path (length path) extname_init = extname_loop path e extname_init"
  proof (rule extname_loop_trailing_slashes)
    show "matchedSlash extname_init" by (simp add: extname_init_def)
    show "e \<le> length path" by (rule se(3))
    show "\<forall>k. e \<le> k \<and> k < length path \<longrightarrow> path ! k = CHR ''/''"
    proof (intro allI impI)
      fix k assume "e \<le> k \<and> k < length path"
      then have "path ! k \<in> set t" using parts(4) by simp
      then show "path ! k = CHR ''/''" using t by auto
    qed
  qed
  also have "\<dots> = extname_loop path s S1"
    unfolding S1_def
  proof (rule extname_loop_to_dot)
    show "s < e" by (rule se(1))
    show "path ! s = CHR ''.''" by (rule parts(1))
    show "\<forall>k. s < k \<and> k < e \<longrightarrow> path ! k \<noteq> CHR ''.'' \<and> path ! k \<noteq> CHR ''/''"
    proof (intro allI impI)
      fix k assume "s < k \<and> k < e"
      then have "path ! k \<in> set ext" using parts(3) by simp
      then show "path ! k \<noteq> CHR ''.'' \<and> path ! k \<noteq> CHR ''/''" using ext by auto
    qed
  qed
  also have "\<dots> = extname_loop path b (S1\<lparr>preDotState := p\<rparr>)"
  proof -
    have "extname_loop path s S1 = extname_loop path b
       (S1\<lparr>preDotState := (if s = b then preDotState S1
                              else if path ! b = CHR ''.'' then 1 else -1)\<rparr>)"
    proof (rule extname_loop_after_dot)
      show "startDot S1 \<noteq> -1" by (simp add: S1_def)
      show "endIdx S1 \<noteq> -1" by (simp add: S1_def)
      show "b \<le> s" by (rule se(2))
      show "\<forall>k. b \<le> k \<and> k < s \<longrightarrow> path ! k \<noteq> CHR ''/''"
      proof (intro allI impI)
        fix k assume "b \<le> k \<and> k < s"
        then have "path ! k \<in> set base" using parts(2) by simp
        then show "path ! k \<noteq> CHR ''/''" using base by auto
      qed
    qed
    then show ?thesis by (simp add: p_def S1_def)
  qed
  also have "\<dots> = S1\<lparr>preDotState := p, startPart := int b\<rparr>"
  proof -
    have "b = 0 \<or> path ! (b - 1) = CHR ''/''"
    proof (cases "dir = []")
      case True
      then show ?thesis by (simp add: b_def)
    next
      case False
      then have "path ! (b - 1) = last dir" by (rule parts(5))
      then show ?thesis using dir False by simp
    qed
    then have "extname_loop path b (S1\<lparr>preDotState := p\<rparr>) =
        (S1\<lparr>preDotState := p\<rparr>)\<lparr>startPart := int b\<rparr>"
      by (rule extname_loop_finish) (simp_all add: S1_def)
    then show ?thesis by simp
  qed
  finally have final: "extname_loop path (length path) extname_init =
      \<lparr>startDot = int s, startPart = int b, endIdx = int e,
       matchedSlash = False, preDotState = p\<rparr>"
    by (simp add: S1_def)
  have sl: "slice path (int s) (int e) = CHR ''.'' # ext"
  proof -
    have n: "nat (int e) - nat (int s) = Suc (length ext)" by (simp add: s_def e_def)
    have d: "drop (nat (int s)) path = CHR ''.'' # ext @ t" by (simp add: path_def s_def)
    show ?thesis unfolding slice_def n d by simp
  qed
  have ex: "extname path =
      (if p = 0 \<or> (p = 1 \<and> int s = int e - 1 \<and> int s = int b + 1) then []
       else CHR ''.'' # ext)"
    by (simp add: extname_def final Let_def sl)
  show ?thesis
  proof (cases "base = []")
    case True
    then have "p = 0" by (simp add: p_def s_def b_def)
    then show ?thesis using True ex by (simp add: path_def)
  next
    case False
    then have sb: "s \<noteq> b" by (simp add: s_def b_def)
    have pb: "path ! b = hd base"
      using False by (simp add: path_def b_def nth_append hd_conv_nth)
    have p0: "p \<noteq> 0" using sb by (simp add: p_def)
    have "(p = 1 \<and> int s = int e - 1 \<and> int s = int b + 1) \<longleftrightarrow> (base = ''.'' \<and> ext = [])"
    proof
      assume a: "p = 1 \<and> int s = int e - 1 \<and> int s = int b + 1"
      then have "hd base = CHR ''.''" using sb pb by (simp add: p_def split: if_splits)
      moreover have "length base = 1" "ext = []" using a by (simp_all add: s_def e_def b_def)
      ultimately show "base = ''.'' \<and> ext = []"
        by (cases base) auto
    next
      assume "base = ''.'' \<and> ext = []"
      then show "p = 1 \<and> int s = int e - 1 \<and> int s = int b + 1"
        using pb by (simp add: p_def s_def e_def b_def)
    qed
    then show ?thesis using False p0 ex by (simp add: path_def)
  qed
qed

lemma extname_only_slashes:
  assumes "set t \<subseteq> {CHR ''/''}"
  shows "extname t = []"
proof -
  have "extname_loop t (length t) extname_init = extname_loop t 0 extname_init"
  proof (rule extname_loop_trailing_slashes)
    show "matchedSlash extname_init" by (simp add: extname_init_def)
    show "0 \<le> length t" by simp
    show "\<forall>k. 0 \<le> k \<and> k < length t \<longrightarrow> t ! k = CHR ''/''"
    proof (intro allI impI)
      fix k assume "0 \<le> k \<and> k < length t"
      then have "t ! k \<in> set t" by simp
      then show "t ! k = CHR ''/''" using assms by auto
    qed
  qed
  then show ?thesis by (simp add: extname_def extname_init_def)
qed

lemma extname_without_dot:
  assumes stem: "stem \<noteq> []" "CHR ''/'' \<notin> set stem" "CHR ''.'' \<notin> set stem"
    and t: "set t \<subseteq> {CHR ''/''}"
    and dir: "dir = [] \<or> last dir = CHR ''/''"
  shows "extname (dir @ stem @ t) = []"
proof -
  define path where "path = dir @ stem @ t"
  define b where "b = length dir"
  define e where "e = length dir + length stem"
  have len: "length path = e + length t" by (simp add: path_def e_def)
  have in_name: "path ! k \<in> set stem" if "b \<le> k" "k < e" for k
  proof -
    define j where "j = k - b"
    have j: "k = length dir + j" "j < length stem"
      using that unfolding j_def b_def e_def by linarith+
    have "path ! k = (stem @ t) ! j"
      unfolding path_def j(1) by (simp only: nth_append_length_plus)
    then show ?thesis using j(2) by (simp add: nth_append)
  qed
  have in_t: "path ! k \<in> set t" if "e \<le> k" "k < length path" for k
  proof -
    define j where "j = k - e"
    have j: "k = e + j" using that(1) unfolding j_def by linarith
    have jt: "j < length t" using that unfolding j_def len by simp
    have p2: "path = (dir @ stem) @ t" by (simp add: path_def)
    have le: "length (dir @ stem) = e" by (simp add: e_def)
    have "path ! k = t ! j"
      unfolding p2 j le [symmetric] by (simp only: nth_append_length_plus)
    then show ?thesis using jt by simp
  qed
  obtain l where l: "e = Suc l" "b \<le> l" using stem(1) by (cases stem) (auto simp: e_def b_def)
  define S0 where "S0 = extname_init\<lparr>matchedSlash := False, endIdx := int e\<rparr>"
  have "extname_loop path (length path) extname_init = extname_loop path e extname_init"
  proof (rule extname_loop_trailing_slashes)
    show "matchedSlash extname_init" by (simp add: extname_init_def)
    show "e \<le> length path" by (simp add: len)
    show "\<forall>k. e \<le> k \<and> k < length path \<longrightarrow> path ! k = CHR ''/''"
    proof (intro allI impI)
      fix k assume "e \<le> k \<and> k < length path"
      then have "path ! k \<in> set t" using in_t by simp
      then show "path ! k = CHR ''/''" using t by auto
    qed
  qed
  also have "\<dots> = extname_loop path l S0"
  proof -
    have "path ! l \<in> set stem" using l by (intro in_name) simp_all
    then have "path ! l \<noteq> CHR ''.''" "path ! l \<noteq> CHR ''/''" using stem by auto
    then show ?thesis using l(1)
      by (simp add: Let_def S0_def extname_init_def add.commute)
  qed
  also have "\<dots> = extname_loop path b S0"
  proof (rule extname_loop_plain_before_dot)
    show "startDot S0 = -1" by (simp add: S0_def extname_init_def)
    show "endIdx S0 \<noteq> -1" by (simp add: S0_def)
    show "b \<le> l" by (rule l(2))
    show "\<forall>k. b \<le> k \<and> k < l \<longrightarrow> path ! k \<noteq> CHR ''.'' \<and> path ! k \<noteq> CHR ''/''"
    proof (intro allI impI)
      fix k assume "b \<le> k \<and> k < l"
      then have "path ! k \<in> set stem" using l(1) by (intro in_name) simp_all
      then show "path ! k \<noteq> CHR ''.'' \<and> path ! k \<noteq> CHR ''/''" using stem by auto
    qed
  qed
  also have "\<dots> = S0\<lparr>startPart := int b\<rparr>"
  proof -
    have "b = 0 \<or> path ! (b - 1) = CHR ''/''"
    proof (cases "dir = []")
      case True
      then show ?thesis by (simp add: b_def)
    next
      case False
      then have "path ! (b - 1) = last dir"
        by (simp add: path_def b_def nth_append last_conv_nth)
      then show ?thesis using dir False by simp
    qed
    then show ?thesis
      by (rule extname_loop_finish) (simp_all add: S0_def extname_init_def)
  qed
  finally have "startDot (extname_loop path (length path) extname_init) = -1"
    by (simp add: S0_def extname_init_def)
  then show ?thesis by (simp add: extname_def Let_def path_def)
qed

lemma extname_subset_no_slash: "set (extname path) \<subseteq> set path - {CHR ''/''}"
  using extname_subset [of path] extname_no_slash [of path] by blast

section \<open>Properties of the Filename Generator\<close>

lemma digit_char_in: "d < 10 \<Longrightarrow> digit_char d \<in> set ''0123456789''"
  unfolding digit_char_def by (rule nth_mem) simp

lemma number_to_string_digits: "set (number_to_string n) \<subseteq> set ''0123456789''"
proof (induction n rule: number_to_string.induct)
  case (1 n)
  show ?case
  proof (cases "n < 10")
    case True
    then show ?thesis
      using digit_char_in [of n] by (subst number_to_string.simps) simp
  next
    case False
    have "n mod 10 < 10" by simp
    then have "digit_char (n mod 10) \<in> set ''0123456789''" by (rule digit_char_in)
    with False 1 show ?thesis
      by (subst number_to_string.simps) simp
  qed
qed

lemma number_to_string_nonempty: "number_to_string n \<noteq> []"
  by (subst number_to_string.simps) simp

lemma digits_sub: "set ''0123456789'' \<subseteq> set ''0123456789-''"
  by simp

lemma uniqueSuffix_chars: "set (uniqueSuffix now rnd) \<subseteq> set ''0123456789-''"
proof -
  define D where "D = set ''0123456789-''"
  have a: "set (number_to_string now) \<subseteq> D" "set (number_to_string rnd) \<subseteq> D"
    using number_to_string_digits digits_sub unfolding D_def by (rule subset_trans)+
  have b: "CHR ''-'' \<in> D" by (simp add: D_def)
  have "set (uniqueSuffix now rnd) \<subseteq> D"
    using a b by (simp add: uniqueSuffix_def)
  then show ?thesis by (simp only: D_def)
qed

lemma uniqueSuffix_plain:
  "uniqueSuffix now rnd \<noteq> []" "CHR ''.'' \<notin> set (uniqueSuffix now rnd)"
  "CHR ''/'' \<notin> set (uniqueSuffix now rnd)"
proof -
  show "uniqueSuffix now rnd \<noteq> []" by (simp add: uniqueSuffix_def)
  have "CHR ''.'' \<notin> set ''0123456789-''" "CHR ''/'' \<notin> set ''0123456789-''" by simp_all
  then show "CHR ''.'' \<notin> set (uniqueSuffix now rnd)" "CHR ''/'' \<notin> set (uniqueSuffix now rnd)"
    using uniqueSuffix_chars [of now rnd] by blast+
qed

lemma digit_codes: "map of_char ''0123456789'' = [48..<58::nat]"
  by simp

lemma of_char_digit_char: "d < 10 \<Longrightarrow> of_char (digit_char d) = (48::nat) + d"
proof -
  assume d: "d < 10"
  then have "of_char (digit_char d) = map of_char ''0123456789'' ! d"
    unfolding digit_char_def by (subst nth_map) simp_all
  also have "\<dots> = [48..<58::nat] ! d" by (simp only: digit_codes)
  also have "\<dots> = 48 + d" using d by (subst nth_upt) simp_all
  finally show ?thesis .
qed

lemma digit_char_zero: "d < 10 \<Longrightarrow> (digit_char d = CHR ''0'') = (d = 0)"
proof
  assume "d < 10" "digit_char d = CHR ''0''"
  then have "(48::nat) + d = of_char (CHR ''0'')" using of_char_digit_char [of d] by simp
  then show "d = 0" by simp
next
  assume "d = 0"
  then show "digit_char d = CHR ''0''" by (simp add: digit_char_def)
qed

lemma decimal_value_number_to_string:
  "foldl (\<lambda>a c. 10 * a + (of_char c - 48)) 0 (number_to_string n) = n"
proof (induction n rule: number_to_string.induct)
  case (1 n)
  show ?case
  proof (cases "n < 10")
    case True
    then show ?thesis
      by (subst number_to_string.simps) (simp add: of_char_digit_char)
  next
    case False
    have "of_char (digit_char (n mod 10)) = (48::nat) + n mod 10"
      by (rule of_char_digit_char) simp
    with False 1 show ?thesis
      by (subst number_to_string.simps) simp
  qed
qed

lemma hd_number_to_string_zero: "(hd (number_to_string n) = CHR ''0'') = (n = 0)"
proof (induction n rule: number_to_string.induct)
  case (1 n)
  show ?case
  proof (cases "n < 10")
    case True
    then have "number_to_string n = [digit_char n]" by (subst number_to_string.simps) simp
    then show ?thesis using True by (simp add: digit_char_zero)
  next
    case False
    then have "n div 10 \<noteq> 0" by simp
    with False 1 have "hd (number_to_string (n div 10)) \<noteq> CHR ''0''" by simp
    moreover have "number_to_string n = number_to_string (n div 10) @ [digit_char (n mod 10)]"
      using False by (subst number_to_string.simps) simp
    ultimately show ?thesis using False number_to_string_nonempty [of "n div 10"] by simp
  qed
qed

lemma storage_filename_unfold:
  "storage_filename now rnd n = number_to_string now @ ''-'' @ number_to_string rnd @ extname n"
  by (simp add: storage_filename_def uniqueSuffix_def)

section \<open>The example of the source's comment\<close>

text \<open>
  The source gives \<open>1763578360378-911074405.jpeg\<close> as an example of a generated name;
  the same clock value and random draw are used below for a file named \<open>cat.png\<close>.
\<close>

lemma number_to_string_now_example: "number_to_string 1763578360378 = ''1763578360378''"
  by (simp add: number_to_string.simps digit_char_def)

lemma number_to_string_rnd_example: "number_to_string 911074405 = ''911074405''"
  by (simp add: number_to_string.simps digit_char_def)

lemma extname_png_example: "extname ''cat.png'' = ''.png''"
  by code_simp

lemma storage_filename_example:
  "storage_filename 1763578360378 911074405 ''cat.png'' = ''1763578360378-911074405.png''"
  by (simp add: storage_filename_unfold number_to_string_now_example
      number_to_string_rnd_example extname_png_example)

text \<open>
  C5. The storage filename is the timestamp, the separator \<open>-\<close>, the random integer and
  the extension of the original name, in this order. The two numbers are written in
  decimal: digits only, no leading zero, and reading the digits back gives the number.
  The extension is what \<open>path.extname\<close> finds in the original name: for a last component
  \<open>base.ext\<close> it is \<open>.ext\<close> (nothing when \<open>base\<close> is empty or the component is \<open>..\<close>), for a
  last component without a dot and for a path of slashes it is empty. The extension of
  the storage filename is again the extension of the original name: it is preserved.
\<close>

theorem storage_filename_keeps_extension:
  "storage_filename now rnd orig =
     number_to_string now @ ''-'' @ number_to_string rnd @ extname orig \<and>
   extname (storage_filename now rnd orig) = extname orig \<and>
   set (number_to_string n) \<subseteq> set ''0123456789'' \<and>
   foldl (\<lambda>a c. 10 * a + (of_char c - 48)) 0 (number_to_string n) = n \<and>
   (hd (number_to_string n) = CHR ''0'') = (n = 0) \<and>
   number_to_string 0 = ''0'' \<and>
   (CHR ''/'' \<notin> set base \<and> CHR ''/'' \<notin> set ext \<and> CHR ''.'' \<notin> set ext \<and>
    set t \<subseteq> {CHR ''/''} \<and> (dir = [] \<or> last dir = CHR ''/'') \<longrightarrow>
      extname (dir @ base @ CHR ''.'' # ext @ t) =
        (if base = [] \<or> (base = ''.'' \<and> ext = []) then [] else CHR ''.'' # ext)) \<and>
   (stem \<noteq> [] \<and> CHR ''/'' \<notin> set stem \<and> CHR ''.'' \<notin> set stem \<and>
    set t \<subseteq> {CHR ''/''} \<and> (dir = [] \<or> last dir = CHR ''/'') \<longrightarrow>
      extname (dir @ stem @ t) = []) \<and>
   (set t \<subseteq> {CHR ''/''} \<longrightarrow> extname t = [])"
proof (intro conjI impI)
  show "storage_filename now rnd orig =
     number_to_string now @ ''-'' @ number_to_string rnd @ extname orig"
    by (rule storage_filename_unfold)
  show "extname (storage_filename now rnd orig) = extname orig"
  proof (cases "extname orig = []")
    case True
    then have "storage_filename now rnd orig = uniqueSuffix now rnd"
      by (simp add: storage_filename_def)
    then show ?thesis using True uniqueSuffix_plain(2) [of now rnd]
      by (simp add: extname_no_dot)
  next
    case False
    then obtain e where e: "extname orig = CHR ''.'' # e"
      "CHR ''.'' \<notin> set e" "CHR ''/'' \<notin> set e"
      using extname_shape [of orig] by blast
    have "extname (uniqueSuffix now rnd @ CHR ''.'' # e) = CHR ''.'' # e"
      using uniqueSuffix_plain e(2,3) by (rule extname_suffix)
    then show ?thesis by (simp add: storage_filename_def e(1))
  qed
  show "set (number_to_string n) \<subseteq> set ''0123456789''" by (rule number_to_string_digits)
  show "foldl (\<lambda>a c. 10 * a + (of_char c - 48)) 0 (number_to_string n) = n"
    by (rule decimal_value_number_to_string)
  show "(hd (number_to_string n) = CHR ''0'') = (n = 0)" by (rule hd_number_to_string_zero)
  show "number_to_string 0 = ''0''" by (simp add: number_to_string.simps digit_char_def)
  show "extname (dir @ base @ CHR ''.'' # ext @ t) =
        (if base = [] \<or> (base = ''.'' \<and> ext = []) then [] else CHR ''.'' # ext)"
    if "CHR ''/'' \<notin> set base \<and> CHR ''/'' \<notin> set ext \<and> CHR ''.'' \<notin> set ext \<and>
    set t \<subseteq> {CHR ''/''} \<and> (dir = [] \<or> last dir = CHR ''/'')"
    using that by (intro extname_with_dot) simp_all
  show "extname (dir @ stem @ t) = []"
    if "stem \<noteq> [] \<and> CHR ''/'' \<notin> set stem \<and> CHR ''.'' \<notin> set stem \<and>
    set t \<subseteq> {CHR ''/''} \<and> (dir = [] \<or> last dir = CHR ''/'')"
    using that by (intro extname_without_dot) simp_all
  show "extname t = []" if "set t \<subseteq> {CHR ''/''}"
    using that by (rule extname_only_slashes)
qed

theorem storage_filename_keeps_extension_witness:
  "storage_filename 1763578360378 911074405 ''cat.png'' = ''1763578360378-911074405.png'' \<and>
   extname ''1763578360378-911074405.png'' = ''.png'' \<and>
   extname ''cat.png'' = ''.png'' \<and>
   extname ''photos/cat.tar.gz/'' = ''.gz'' \<and>
   extname ''.bashrc'' = [] \<and>
   extname ''..'' = [] \<and>
   extname ''v1.2/README'' = [] \<and>
   extname ''//'' = [] \<and>
   foldl (\<lambda>a c. 10 * a + (of_char c - 48)) 0 (number_to_string 911074405) = (911074405::nat)"
proof -
  note t = storage_filename_keeps_extension
  have a: "storage_filename 1763578360378 911074405 ''cat.png'' =
      number_to_string 1763578360378 @ ''-'' @ number_to_string 911074405 @ extname ''cat.png''"
    and b: "extname (storage_filename 1763578360378 911074405 ''cat.png'') = extname ''cat.png''"
    and c: "foldl (\<lambda>a c. 10 * a + (of_char c - 48)) 0 (number_to_string 911074405) = (911074405::nat)"
    using t [where now = 1763578360378 and rnd = 911074405 and orig = "''cat.png''"
        and n = 911074405 and t = "[]" and dir = "[]" and base = "[]" and ext = "[]" and stem = "[]"]
    by blast+
  have d: "extname ''cat.png'' = ''.png''"
    using t [where dir = "[]" and base = "''cat''" and ext = "''png''" and t = "[]"
        and now = 0 and rnd = 0 and orig = "[]" and n = 0 and stem = "[]"]
    by simp
  have e: "extname ''photos/cat.tar.gz/'' = ''.gz''"
    using t [where dir = "''photos/''" and base = "''cat.tar''" and ext = "''gz''" and t = "''/''"
        and now = 0 and rnd = 0 and orig = "[]" and n = 0 and stem = "[]"]
    by simp
  have f: "extname ''.bashrc'' = []"
    using t [where dir = "[]" and base = "[]" and ext = "''bashrc''" and t = "[]"
        and now = 0 and rnd = 0 and orig = "[]" and n = 0 and stem = "[]"]
    by simp
  have g: "extname ''..'' = []"
    using t [where dir = "[]" and base = "''.''" and ext = "[]" and t = "[]"
        and now = 0 and rnd = 0 and orig = "[]" and n = 0 and stem = "[]"]
    by simp
  have h: "extname ''v1.2/README'' = []"
    using t [where dir = "''v1.2/''" and stem = "''README''" and t = "[]"
        and now = 0 and rnd = 0 and orig = "[]" and n = 0 and base = "[]" and ext = "[]"]
    by simp
  have i: "extname ''//'' = []"
    using t [where t = "''//''" and dir = "[]" and stem = "[]"
        and now = 0 and rnd = 0 and orig = "[]" and n = 0 and base = "[]" and ext = "[]"]
    by simp
  have j: "storage_filename 1763578360378 911074405 ''cat.png'' = ''1763578360378-911074405.png''"
    using a d by (simp add: number_to_string_now_example number_to_string_rnd_example)
  show ?thesis using b c d e f g h i j by simp
qed

section \<open>The characters of the storage filename\<close>

lemma extname_reserved_example: "extname ''cat.a*b?c<d>e|f:g'' = ''.a*b?c<d>e|f:g''"
  by code_simp

lemma hd_number_to_string: "hd (number_to_string n) \<in> set ''0123456789''"
proof -
  have "hd (number_to_string n) \<in> set (number_to_string n)"
    using number_to_string_nonempty by (rule hd_in_set)
  then show ?thesis using number_to_string_digits by blast
qed

text \<open>
  C6, as stated, fails: the extension is copied from the client's file name as it is.
  A client can name its file \<open>cat.a*b?c<d>e|f:g\<close>; the characters \<open>* ? < > | :\<close> are not
  allowed in a file name on Windows (the source builds its paths with \<open>path.join\<close> for
  Windows and Unix alike, and for a name without separators both variants of
  \<open>path.extname\<close> agree) and a shell expands or redirects on them. All of them are in the
  storage filename.
\<close>

theorem storage_filename_copies_reserved_characters:
  "storage_filename 1763578360378 911074405 ''cat.a*b?c<d>e|f:g'' =
     ''1763578360378-911074405.a*b?c<d>e|f:g''"
  by (simp add: storage_filename_unfold number_to_string_now_example
      number_to_string_rnd_example extname_reserved_example)

text \<open>
  C6, amended. The storage filename never contains the path separator \<open>/\<close>; it is not
  empty and starts with a digit, so it is neither \<open>.\<close> nor \<open>..\<close>; every character of it is a
  decimal digit, \<open>-\<close> or a character of the original name other than \<open>/\<close>. The extension
  of the original name is copied unchanged: for a last component \<open>base.ext\<close> with a
  non-empty \<open>base\<close> (and not \<open>..\<close>) the storage filename ends in \<open>.ext\<close>, whatever characters
  \<open>ext\<close> holds.
\<close>

theorem storage_filename_has_no_slash:
  "CHR ''/'' \<notin> set (storage_filename now rnd orig) \<and>
   storage_filename now rnd orig \<noteq> [] \<and>
   hd (storage_filename now rnd orig) \<in> set ''0123456789'' \<and>
   set (storage_filename now rnd orig) \<subseteq> set ''0123456789-'' \<union> (set orig - {CHR ''/''}) \<and>
   (CHR ''/'' \<notin> set base \<and> CHR ''/'' \<notin> set ext \<and> CHR ''.'' \<notin> set ext \<and>
    set t \<subseteq> {CHR ''/''} \<and> (dir = [] \<or> last dir = CHR ''/'') \<and>
    base \<noteq> [] \<and> (base = ''.'' \<longrightarrow> ext \<noteq> []) \<longrightarrow>
      storage_filename now rnd (dir @ base @ CHR ''.'' # ext @ t) =
        number_to_string now @ ''-'' @ number_to_string rnd @ CHR ''.'' # ext)"
proof (intro conjI impI)
  show "CHR ''/'' \<notin> set (storage_filename now rnd orig)"
    using uniqueSuffix_plain(3) [of now rnd] extname_no_slash [of orig]
    by (simp add: storage_filename_def)
  show "storage_filename now rnd orig \<noteq> []"
    using uniqueSuffix_plain(1) [of now rnd] by (simp add: storage_filename_def)
  show "hd (storage_filename now rnd orig) \<in> set ''0123456789''"
    using hd_number_to_string [of now] number_to_string_nonempty [of now]
    by (simp add: storage_filename_unfold)
  show "set (storage_filename now rnd orig) \<subseteq> set ''0123456789-'' \<union> (set orig - {CHR ''/''})"
    using uniqueSuffix_chars [of now rnd] extname_subset_no_slash [of orig]
    unfolding storage_filename_def set_append by (rule Un_mono)
  show "storage_filename now rnd (dir @ base @ CHR ''.'' # ext @ t) =
        number_to_string now @ ''-'' @ number_to_string rnd @ CHR ''.'' # ext"
    if h: "CHR ''/'' \<notin> set base \<and> CHR ''/'' \<notin> set ext \<and> CHR ''.'' \<notin> set ext \<and>
    set t \<subseteq> {CHR ''/''} \<and> (dir = [] \<or> last dir = CHR ''/'') \<and>
    base \<noteq> [] \<and> (base = ''.'' \<longrightarrow> ext \<noteq> [])"
  proof -
    have "extname (dir @ base @ CHR ''.'' # ext @ t) =
        (if base = [] \<or> (base = ''.'' \<and> ext = []) then [] else CHR ''.'' # ext)"
      using h by (intro extname_with_dot) simp_all
    then have "extname (dir @ base @ CHR ''.'' # ext @ t) = CHR ''.'' # ext"
      using h by auto
    then show ?thesis by (simp add: storage_filename_unfold)
  qed
qed

theorem storage_filename_has_no_slash_witness:
  "storage_filename 1763578360378 911074405 ''../../etc/passwd.png'' =
     ''1763578360378-911074405.png'' \<and>
   CHR ''/'' \<notin> set (storage_filename 1763578360378 911074405 ''../../etc/passwd.png'')"
proof -
  note t = storage_filename_has_no_slash
    [where now = 1763578360378 and rnd = 911074405 and orig = "''../../etc/passwd.png''"
      and dir = "''../../etc/''" and base = "''passwd''" and ext = "''png''" and t = "[]"]
  have "storage_filename 1763578360378 911074405 ''../../etc/passwd.png'' =
      number_to_string 1763578360378 @ ''-'' @ number_to_string 911074405 @ ''.png''"
    using t by simp
  moreover have "CHR ''/'' \<notin> set (storage_filename 1763578360378 911074405 ''../../etc/passwd.png'')"
    using t by blast
  ultimately show ?thesis
    by (simp add: number_to_string_now_example number_to_string_rnd_example)
qed

section \<open>Properties of the upload route\<close>

text \<open>
  C1. The Upload Filter accepts exactly the four MIME types \<open>image/jpeg\<close>, \<open>image/jpg\<close>,
  \<open>image/png\<close> and \<open>image/gif\<close>. For every other declared type it answers with the error
  "Invalid file type. Only JPG, PNG, and GIF are allowed.", and the middleware ends the
  request with this error while the upload directory is still as it was: no byte of the
  file has been written.
\<close>

theorem fileFilter_allow_list:
  "(fileFilter f = Inr True \<longleftrightarrow>
      mimetype f \<in> {''image/jpeg'', ''image/jpg'', ''image/png'', ''image/gif''}) \<and>
   (mimetype f \<notin> {''image/jpeg'', ''image/jpg'', ''image/png'', ''image/gif''} \<longrightarrow>
      fileFilter f = Inl (Error ''Invalid file type. Only JPG, PNG, and GIF are allowed.'') \<and>
      upload_single now rnd (Some (f, content)) d =
        (Inl (Error ''Invalid file type. Only JPG, PNG, and GIF are allowed.''), d))"
  by (simp add: fileFilter_def allowedTypes_def upload_single_def upload_steps_def)

theorem fileFilter_allow_list_witness:
  "fileFilter \<lparr>originalname = ''cat.png'', mimetype = ''image/png''\<rparr> = Inr True \<and>
   fileFilter \<lparr>originalname = ''notes.txt'', mimetype = ''text/plain''\<rparr> =
     Inl (Error ''Invalid file type. Only JPG, PNG, and GIF are allowed.'') \<and>
   upload_single 1763578360378 911074405
     (Some (\<lparr>originalname = ''notes.txt'', mimetype = ''text/plain''\<rparr>, ''hello'')) Map.empty =
     (Inl (Error ''Invalid file type. Only JPG, PNG, and GIF are allowed.''), Map.empty)"
  using fileFilter_allow_list [where f = "\<lparr>originalname = ''cat.png'', mimetype = ''image/png''\<rparr>"]
    fileFilter_allow_list [where f = "\<lparr>originalname = ''notes.txt'', mimetype = ''text/plain''\<rparr>"
      and now = 1763578360378 and rnd = 911074405 and content = "''hello''" and d = Map.empty]
  by simp

text \<open>
  C2, as stated, fails: a \<open>text/plain\<close> file named \<open>notes.txt\<close> is answered with status 500,
  which is not a 400-class status. The filter's error is a plain \<open>Error\<close> without a
  \<open>status\<close> property and the application registers no error handler of its own.
\<close>

theorem post_upload_text_plain_is_500:
  "status (fst (post_upload (collection_create ''r1'' 1763578360400) 1763578360378 911074405
     (Some (\<lparr>originalname = ''notes.txt'', mimetype = ''text/plain''\<rparr>, ''hello'')) Map.empty)) = 500 \<and>
   \<not> (400 \<le> status (fst (post_upload (collection_create ''r1'' 1763578360400) 1763578360378 911074405
     (Some (\<lparr>originalname = ''notes.txt'', mimetype = ''text/plain''\<rparr>, ''hello'')) Map.empty)) \<and>
      status (fst (post_upload (collection_create ''r1'' 1763578360400) 1763578360378 911074405
     (Some (\<lparr>originalname = ''notes.txt'', mimetype = ''text/plain''\<rparr>, ''hello'')) Map.empty)) < 500)"
  by (simp add: post_upload_def upload_single_def upload_steps_def fileFilter_def allowedTypes_def
      default_error_handler_def)

text \<open>
  C2, amended. For every upload whose declared MIME type is not allowed, the request is
  rejected at the filter stage: the middleware ends with the filter's error and performs
  no file-system operation, so zero bytes of the file are written and the upload
  directory is unchanged; the response has status 500, not a 400-class status.
\<close>

theorem post_upload_rejects_disallowed_type:
  "mimetype f \<notin> set allowedTypes \<Longrightarrow>
   upload_steps now rnd (Some (f, content)) =
     (Inl (Error ''Invalid file type. Only JPG, PNG, and GIF are allowed.''), []) \<and>
   status (fst (post_upload create now rnd (Some (f, content)) d)) = 500 \<and>
   snd (post_upload create now rnd (Some (f, content)) d) = d"
  by (simp add: post_upload_def upload_single_def upload_steps_def fileFilter_def
      default_error_handler_def)

theorem post_upload_rejects_disallowed_type_witness:
  "upload_steps 1763578360378 911074405
     (Some (\<lparr>originalname = ''notes.txt'', mimetype = ''text/plain''\<rparr>, ''hello'')) =
     (Inl (Error ''Invalid file type. Only JPG, PNG, and GIF are allowed.''), []) \<and>
   status (fst (post_upload (collection_create ''r1'' 1763578360400) 1763578360378 911074405
     (Some (\<lparr>originalname = ''notes.txt'', mimetype = ''text/plain''\<rparr>, ''hello'')) Map.empty)) = 500 \<and>
   snd (post_upload (collection_create ''r1'' 1763578360400) 1763578360378 911074405
     (Some (\<lparr>originalname = ''notes.txt'', mimetype = ''text/plain''\<rparr>, ''hello'')) Map.empty) =
     Map.empty"
  using post_upload_rejects_disallowed_type
    [where f = "\<lparr>originalname = ''notes.txt'', mimetype = ''text/plain''\<rparr>"
      and create = "collection_create ''r1'' 1763578360400"
      and now = 1763578360378 and rnd = 911074405 and content = "''hello''" and d = Map.empty]
  by (simp add: allowedTypes_def)




text \<open>
  C4. The location of the record is \<open>/uploads/\<close> followed by the file name of the stored
  file, whatever that name is, and starts with exactly one slash: its first character is
  a slash and its second is not. For an accepted upload (allowed MIME type, size within
  the ceiling) the stored file's name is the generated storage filename, the file is
  written under it, and the response is made from the store's answer to exactly this
  record data.
\<close>

theorem location_is_uploads_filename:
  "location (imageData req_file) = ''/uploads/'' @ filename req_file \<and>
   take 1 (location (imageData req_file)) = ''/'' \<and>
   take 2 (location (imageData req_file)) \<noteq> ''//'' \<and>
   (mimetype f \<in> set allowedTypes \<longrightarrow> length content \<le> MAX_FILE_SIZE \<longrightarrow>
      (\<exists>stored.
         upload_single now rnd (Some (f, content)) d =
           (Inr (Some stored), d(filename stored \<mapsto> content)) \<and>
         filename stored = storage_filename now rnd (originalname f) \<and>
         location (imageData stored) = ''/uploads/'' @ storage_filename now rnd (originalname f) \<and>
         fst (post_upload create now rnd (Some (f, content)) d) =
           (case create (imageData stored) of
              Inr record \<Rightarrow>
                \<lparr>status = 200,
                 body = Json (JObject [(''success'', JBool True),
                                       (''message'', JString ''Image uploaded successfully''),
                                       (''data'', JRecord record)])\<rparr>
            | Inl error \<Rightarrow>
                \<lparr>status = 500,
                 body = Json (JObject [(''error'', JString ''Failed to upload image''),
                                       (''message'', JString (message error))])\<rparr>)))"
  by (simp add: post_upload_def upload_single_def upload_steps_def fileFilter_def Let_def imageData_def
      filePath_def upload_handler_def)

theorem location_is_uploads_filename_witness:
  "\<exists>stored.
     upload_single 1763578360378 911074405
       (Some (\<lparr>originalname = ''cat.png'', mimetype = ''image/png''\<rparr>, ''hello'')) Map.empty =
       (Inr (Some stored), [filename stored \<mapsto> ''hello'']) \<and>
     filename stored = ''1763578360378-911074405.png'' \<and>
     location (imageData stored) = ''/uploads/1763578360378-911074405.png'' \<and>
     fst (post_upload (collection_create ''r1'' 1763578360400) 1763578360378 911074405
       (Some (\<lparr>originalname = ''cat.png'', mimetype = ''image/png''\<rparr>, ''hello'')) Map.empty) =
       \<lparr>status = 200,
        body = Json (JObject [(''success'', JBool True),
                              (''message'', JString ''Image uploaded successfully''),
                              (''data'', JRecord \<lparr>name = ''cat.png'',
                                 location = ''/uploads/1763578360378-911074405.png'',
                                 mime_type = ''image/png'', record_id = ''r1'',
                                 created = 1763578360400, updated = 1763578360400\<rparr>)])\<rparr>"
proof -
  have "\<exists>stored.
    upload_single 1763578360378 911074405
       (Some (\<lparr>originalname = ''cat.png'', mimetype = ''image/png''\<rparr>, ''hello'')) Map.empty =
       (Inr (Some stored), [filename stored \<mapsto> ''hello'']) \<and>
    filename stored = ''1763578360378-911074405.png'' \<and>
    location (imageData stored) = ''/uploads/1763578360378-911074405.png'' \<and>
    fst (post_upload (collection_create ''r1'' 1763578360400) 1763578360378 911074405
       (Some (\<lparr>originalname = ''cat.png'', mimetype = ''image/png''\<rparr>, ''hello'')) Map.empty) =
       (case collection_create ''r1'' 1763578360400 (imageData stored) of
              Inr record \<Rightarrow>
                \<lparr>status = 200,
                 body = Json (JObject [(''success'', JBool True),
                                       (''message'', JString ''Image uploaded successfully''),
                                       (''data'', JRecord record)])\<rparr>
            | Inl error \<Rightarrow>
                \<lparr>status = 500,
                 body = Json (JObject [(''error'', JString ''Failed to upload image''),
                                       (''message'', JString (message error))])\<rparr>)"
    using location_is_uploads_filename
      [where f = "\<lparr>originalname = ''cat.png'', mimetype = ''image/png''\<rparr>"
        and req_file = "\<lparr>originalname = ''cat.png'', mimetype = ''image/png'',
                           filename = ''1-2.png'', size_bytes = 5\<rparr>"
        and create = "collection_create ''r1'' 1763578360400"
        and now = 1763578360378 and rnd = 911074405 and content = "''hello''" and d = Map.empty]
    by (simp add: allowedTypes_def MAX_FILE_SIZE_def storage_filename_example)
  then obtain stored where st:
    "upload_single 1763578360378 911074405
       (Some (\<lparr>originalname = ''cat.png'', mimetype = ''image/png''\<rparr>, ''hello'')) Map.empty =
       (Inr (Some stored), [filename stored \<mapsto> ''hello''])"
    "filename stored = ''1763578360378-911074405.png''"
    "location (imageData stored) = ''/uploads/1763578360378-911074405.png''"
    "fst (post_upload (collection_create ''r1'' 1763578360400) 1763578360378 911074405
       (Some (\<lparr>originalname = ''cat.png'', mimetype = ''image/png''\<rparr>, ''hello'')) Map.empty) =
       (case collection_create ''r1'' 1763578360400 (imageData stored) of
              Inr record \<Rightarrow>
                \<lparr>status = 200,
                 body = Json (JObject [(''success'', JBool True),
                                       (''message'', JString ''Image uploaded successfully''),
                                       (''data'', JRecord record)])\<rparr>
            | Inl error \<Rightarrow>
                \<lparr>status = 500,
                 body = Json (JObject [(''error'', JString ''Failed to upload image''),
                                       (''message'', JString (message error))])\<rparr>)"
    by blast
  have names: "originalname stored = ''cat.png''" "mimetype stored = ''image/png''"
    using st(1) by (auto simp: upload_single_def upload_steps_def fileFilter_def allowedTypes_def Let_def
        MAX_FILE_SIZE_def)
  have "collection_create ''r1'' 1763578360400 (imageData stored) =
      Inr \<lparr>name = ''cat.png'', location = ''/uploads/1763578360378-911074405.png'',
           mime_type = ''image/png'', record_id = ''r1'',
           created = 1763578360400, updated = 1763578360400\<rparr>"
    using st(3) names by (simp add: collection_create_def imageData_def)
  with st show ?thesis by auto
qed

text \<open>
  C7. When the store's \<open>create\<close> call fails for an accepted upload, the response has
  status 500 and the body \<open>{error: 'Failed to upload image', message}\<close> with the message
  of the store's error, and the file written by the middleware is still in the upload
  directory: nothing is rolled back.
\<close>

theorem metadata_failure_keeps_file:
  "mimetype f \<in> set allowedTypes \<Longrightarrow> length content \<le> MAX_FILE_SIZE \<Longrightarrow>
   create (imageData \<lparr>originalname = originalname f, mimetype = mimetype f,
                       filename = storage_filename now rnd (originalname f),
                       size_bytes = length content\<rparr>) = Inl err \<Longrightarrow>
   post_upload create now rnd (Some (f, content)) d =
     (\<lparr>status = 500,
       body = Json (JObject [(''error'', JString ''Failed to upload image''),
                             (''message'', JString (message err))])\<rparr>,
      d(storage_filename now rnd (originalname f) \<mapsto> content))"
  by (simp add: post_upload_def upload_single_def upload_steps_def fileFilter_def Let_def upload_handler_def)

theorem metadata_failure_keeps_file_witness:
  "post_upload (\<lambda>data. Inl (ClientResponseError 0 ''Something went wrong while processing your request.''))
     1763578360378 911074405
     (Some (\<lparr>originalname = ''cat.png'', mimetype = ''image/png''\<rparr>, ''hello'')) Map.empty =
     (\<lparr>status = 500,
       body = Json (JObject [(''error'', JString ''Failed to upload image''),
                             (''message'', JString ''Something went wrong while processing your request.'')])\<rparr>,
      [''1763578360378-911074405.png'' \<mapsto> ''hello''])"
  using metadata_failure_keeps_file
    [where f = "\<lparr>originalname = ''cat.png'', mimetype = ''image/png''\<rparr>"
      and create = "\<lambda>data. Inl (ClientResponseError 0 ''Something went wrong while processing your request.'')"
      and err = "ClientResponseError 0 ''Something went wrong while processing your request.''"
      and now = 1763578360378 and rnd = 911074405 and content = "''hello''" and d = Map.empty]
  by (simp add: allowedTypes_def MAX_FILE_SIZE_def storage_filename_example)

section \<open>Properties of the listing route\<close>

lemma sorted_wrt_newest_first:
  "sorted_wrt (\<lambda>a b. created b \<le> created a) (rev (sort_key created rows))"
proof -
  have "sorted (map created (sort_key created rows))" by (rule sorted_sort_key)
  then have "sorted_wrt (\<lambda>a b. created a \<le> created b) (sort_key created rows)"
    by (simp add: sorted_map)
  then show ?thesis by (simp add: sorted_wrt_rev)
qed

text \<open>
  C8. \<open>GET /api/images\<close> answers with status 200 and the records of the whole collection:
  the list returned holds each record of the collection as often as the collection does
  (nothing filtered, no limit), ordered by \<open>created\<close> descending. For an empty collection
  the answer is status 200 with the empty array.
\<close>

theorem listImages_newest_first:
  "(\<exists>records.
      get_api_images (collection_getFullList rows) =
        \<lparr>status = 200, body = Json (JArray (map JRecord records))\<rparr> \<and>
      mset records = mset rows \<and>
      sorted_wrt (\<lambda>a b. created b \<le> created a) records) \<and>
   get_api_images (collection_getFullList []) = \<lparr>status = 200, body = Json (JArray [])\<rparr>"
proof
  have "get_api_images (collection_getFullList rows) =
        \<lparr>status = 200, body = Json (JArray (map JRecord (rev (sort_key created rows))))\<rparr>"
    by (simp add: get_api_images_def collection_getFullList_def)
  moreover have "mset (rev (sort_key created rows)) = mset rows" by simp
  ultimately show "\<exists>records.
      get_api_images (collection_getFullList rows) =
        \<lparr>status = 200, body = Json (JArray (map JRecord records))\<rparr> \<and>
      mset records = mset rows \<and>
      sorted_wrt (\<lambda>a b. created b \<le> created a) records"
    using sorted_wrt_newest_first [of rows] by blast
  show "get_api_images (collection_getFullList []) = \<lparr>status = 200, body = Json (JArray [])\<rparr>"
    by (simp add: get_api_images_def collection_getFullList_def)
qed

section \<open>Properties of the gallery front end\<close>

text \<open>
  C9. When the API call fails (no response, a status outside 2xx, or a body that does not
  parse) and the page has a gallery container, the container's content is replaced by
  one paragraph of class \<open>error\<close> whose text is "Failed to load images. Please try again
  later.", and nothing else.
\<close>

theorem loadImages_failure_message:
  \<open>api_call_failed outcome \<Longrightarrow>
   loadImages formatDate outcome (Some old) =
     Some (''<p class="error">'' @ ''Failed to load images. Please try again later.'' @ ''</p>'')\<close>
proof (cases outcome)
  case NetworkFailure
  then show ?thesis by (simp add: loadImages_def show_error_def error_markup_def)
next
  case (HttpResponse ok parsed)
  assume "api_call_failed outcome"
  with HttpResponse show ?thesis
    by (cases parsed) (simp_all add: loadImages_def show_error_def error_markup_def)
qed

theorem loadImages_failure_message_witness:
  \<open>loadImages (\<lambda>t. ''Jan 1, 2025, 10:00 AM'') (HttpResponse False ParseFailure)
     (Some ''<p>Loading images...</p>'') =
     Some ''<p class="error">Failed to load images. Please try again later.</p>'' \<and>
   loadImages (\<lambda>t. ''Jan 1, 2025, 10:00 AM'') NetworkFailure (Some ''<p>Loading images...</p>'') =
     Some ''<p class="error">Failed to load images. Please try again later.</p>''\<close>
  using loadImages_failure_message
    [where outcome = "HttpResponse False ParseFailure" and old = "''<p>Loading images...</p>''"
      and formatDate = "\<lambda>t. ''Jan 1, 2025, 10:00 AM''"]
    loadImages_failure_message
    [where outcome = NetworkFailure and old = "''<p>Loading images...</p>''"
      and formatDate = "\<lambda>t. ''Jan 1, 2025, 10:00 AM''"]
  by simp

text \<open>
  \<open>escapeHtml\<close> leaves no \<open><\<close> and no \<open>>\<close> in its output.
\<close>

lemma escapeHtml_no_angle_brackets:
  "CHR ''<'' \<notin> set (escapeHtml s) \<and> CHR ''>'' \<notin> set (escapeHtml s)"
  by (induction s rule: escapeHtml.induct) (auto split: list.splits)

text \<open>
  C10. The card of a record whose name is \<open>"><b>\<close>: the name is escaped where it is the
  text of the \<open>image-name\<close> paragraph, and it stands unescaped in the \<open>alt\<close> attribute of the
  image, where its quote ends the attribute. \<open>mime_type\<close> and the location are
  interpolated as they are.
\<close>

theorem image_card_alt_not_escaped:
  \<open>image_card formatDate
     \<lparr>name = ''"><b>'', location = ''/uploads/1-2.png'', mime_type = ''image/png'',
      record_id = ''r1'', created = 1, updated = 1\<rparr> =
   ''\<newline>      <div class="image-card">\<newline>        <img src="/uploads/1-2.png" alt=""><b>" loading="lazy">\<newline>        <div class="image-info">\<newline>          <p class="image-name">"&gt;&lt;b&gt;</p>\<newline>          <p class="image-meta">image/png '' @
   bullet @ '' '' @ formatDate 1 @ ''</p>\<newline>        </div>\<newline>      </div>\<newline>    ''\<close>
  by (simp add: image_card_def imageUrl_def)

end
